theory Spec2Isabelle
  imports Main
begin

section \<open>Python values used by the generator\<close>

text \<open>
  A Python \<^verbatim>\<open>dict\<close> keeps its keys in insertion order and the generator iterates
  over \<^verbatim>\<open>.items()\<close>, so a dict is an association list. Storing under a key that is
  already present replaces the value and keeps the key's position; a new key goes to
  the end.
\<close>

type_synonym ('k, 'v) dict = "('k \<times> 'v) list"

fun dict_set :: "('k, 'v) dict \<Rightarrow> 'k \<Rightarrow> 'v \<Rightarrow> ('k, 'v) dict" where
  "dict_set [] k v = [(k, v)]"
| "dict_set ((k', v') # d) k v =
     (if k' = k then (k', v) # d else (k', v') # dict_set d k v)"

text \<open>The unpacking \<^verbatim>\<open>**e\<close> inside a dict display stores the items of \<open>e\<close> one by one.\<close>

fun dict_unpack :: "('k, 'v) dict \<Rightarrow> ('k, 'v) dict \<Rightarrow> ('k, 'v) dict" where
  "dict_unpack d [] = d"
| "dict_unpack d ((k, v) # e) = dict_unpack (dict_set d k v) e"

text \<open>The display \<^verbatim>\<open>{**e1, **e2, ...}\<close>: start empty, unpack the sources left to right.\<close>

fun dict_display :: "('k, 'v) dict list \<Rightarrow> ('k, 'v) dict \<Rightarrow> ('k, 'v) dict" where
  "dict_display [] d = d"
| "dict_display (e # es) d = dict_display es (dict_unpack d e)"

text \<open>\<^verbatim>\<open>d.get(k)\<close>, with \<open>None\<close> for a missing key.\<close>

definition dict_get :: "('k, 'v) dict \<Rightarrow> 'k \<Rightarrow> 'v option" where
  "dict_get d k = map_of d k"

text \<open>A well-formed dict has no key twice.\<close>

definition dict_ok :: "('k, 'v) dict \<Rightarrow> bool" where
  "dict_ok d = distinct (map fst d)"

text \<open>\<^verbatim>\<open>str(n)\<close> for the non-negative field numbers: decimal digits, no padding.\<close>

definition digit :: "nat \<Rightarrow> char" where
  "digit d = ''0123456789'' ! d"

fun str_nat :: "nat \<Rightarrow> string" where
  "str_nat n = (if n < 10 then [digit n] else str_nat (n div 10) @ [digit (n mod 10)])"

declare str_nat.simps [simp del]

section \<open>Model descriptors\<close>

text \<open>A field of a model: \<^verbatim>\<open>field_info.name\<close> and \<^verbatim>\<open>field_info.get_internal_type()\<close>.\<close>

record field_info =
  f_name :: string
  f_internal_type :: string

text \<open>
  A request or response entry of a method descriptor: a dict whose keys
  \<^verbatim>\<open>is_stream\<close> and \<^verbatim>\<open>message\<close> may each be absent.
\<close>

record message_info =
  is_stream :: "bool option"
  message :: "string option"

text \<open>A method descriptor: the keys \<^verbatim>\<open>request\<close> and \<^verbatim>\<open>response\<close> may each be absent.\<close>

record method_data =
  request :: "message_info option"
  response :: "message_info option"

text \<open>The value of a message entry: the string \<^verbatim>\<open>"*"\<close> or a list of field names.\<close>

datatype fields_name = Star | Names "string list"

text \<open>
  A model class: \<^verbatim>\<open>__name__\<close>, \<^verbatim>\<open>_meta.abstract\<close>, the fields of \<^verbatim>\<open>_meta\<close> in
  declaration order, \<^verbatim>\<open>_meta.pk.name\<close>, and the attributes \<^verbatim>\<open>_meta.grpc_methods\<close> and
  \<^verbatim>\<open>_meta.grpc_messages\<close>, \<open>None\<close> when \<^verbatim>\<open>hasattr\<close> is false.

  \<open>m_fields_map\<close> is the table behind \<^verbatim>\<open>_meta.get_field\<close>: every name the lookup
  resolves, with the field it gives. Django enters a field under its name and under its
  attname (the foreign key \<^verbatim>\<open>author\<close> also under \<^verbatim>\<open>author_id\<close>), and a reverse
  relation under its own name, so a name of the table need not be the name of its field.
\<close>

record model =
  m_name :: string
  m_abstract :: bool
  m_fields :: "field_info list"
  m_fields_map :: "(string, field_info) dict"
  m_pk_name :: string
  m_grpc_methods :: "(string, method_data) dict option"
  m_grpc_messages :: "(string, fields_name) dict option"

datatype error = FieldDoesNotExist string string

text \<open>
  Django's \<^verbatim>\<open>model._meta.get_field(field_name)\<close>: the field the table has under that
  name, or the exception \<^verbatim>\<open>FieldDoesNotExist\<close> for a name the table does not have.
\<close>

definition get_field :: "model \<Rightarrow> string \<Rightarrow> error + field_info" where
  "get_field m field_name =
     (case dict_get (m_fields_map m) field_name of
        None \<Rightarrow> Inl (FieldDoesNotExist (m_name m) field_name)
      | Some f \<Rightarrow> Inr f)"

text \<open>\<^verbatim>\<open>model_meta.is_abstract_model(model)\<close> of the REST framework.\<close>

definition is_abstract_model :: "model \<Rightarrow> bool" where
  "is_abstract_model m = m_abstract m"

text \<open>
  Modelled from the spec: \<^verbatim>\<open>get_model_fields\<close> of
  \<^verbatim>\<open>django_socio_grpc.utils.model_extractor\<close> is not among the sources. The spec has
  the sentinel \<^verbatim>\<open>"*"\<close> expand to all fields of the model, in the model's declared order.
\<close>

definition get_model_fields :: "model \<Rightarrow> field_info list" where
  "get_model_fields m = m_fields m"

section \<open>The default descriptors of the mixins\<close>

text \<open>
  \<^verbatim>\<open>django_socio_grpc.mixins\<close> is not among the sources. The generator calls five
  \<^verbatim>\<open>get_default_method\<close> and four \<^verbatim>\<open>get_default_message\<close> static methods of it; they
  are parameters of the model. \<^verbatim>\<open>ListModelMixin.get_default_message\<close> is called with
  the model name only.
\<close>

record mixins =
  List_get_default_method :: "string \<Rightarrow> (string, method_data) dict"
  Create_get_default_method :: "string \<Rightarrow> (string, method_data) dict"
  Retrieve_get_default_method :: "string \<Rightarrow> (string, method_data) dict"
  Update_get_default_method :: "string \<Rightarrow> (string, method_data) dict"
  Destroy_get_default_method :: "string \<Rightarrow> (string, method_data) dict"
  Create_get_default_message :: "string \<Rightarrow> fields_name \<Rightarrow> (string, fields_name) dict"
  List_get_default_message :: "string \<Rightarrow> (string, fields_name) dict"
  Retrieve_get_default_message :: "string \<Rightarrow> fields_name \<Rightarrow> (string, fields_name) dict"
  Destroy_get_default_message :: "string \<Rightarrow> fields_name \<Rightarrow> (string, fields_name) dict"

text \<open>
  Modelled from the spec: the bodies of the mixins' static methods are missing. The spec
  gives each default method the name \<^verbatim>\<open>{Verb}{ModelName}\<close>, the request and response
  messages \<^verbatim>\<open>{ModelName}{Verb}Request\<close> and \<^verbatim>\<open>{ModelName}{Verb}Response\<close>, and no
  streaming but for the response of List.
\<close>

definition default_method :: "string \<Rightarrow> bool \<Rightarrow> string \<Rightarrow> (string, method_data) dict" where
  "default_method verb stream_response model_name =
     [(verb @ model_name,
       \<lparr>request = Some \<lparr>is_stream = Some False,
                         message = Some (model_name @ verb @ ''Request'')\<rparr>,
        response = Some \<lparr>is_stream = Some stream_response,
                          message = Some (model_name @ verb @ ''Response'')\<rparr>\<rparr>)]"

text \<open>
  Modelled from the spec: a default message is one entry, named
  \<^verbatim>\<open>{ModelName}{Verb}Request\<close> as in the spec's \<^verbatim>\<open>Book\<close> scenario, holding the fields
  it is given; the List message, which is given none, holds all fields.
\<close>

definition default_message :: "string \<Rightarrow> string \<Rightarrow> fields_name \<Rightarrow> (string, fields_name) dict" where
  "default_message verb model_name fs = [(model_name @ verb @ ''Request'', fs)]"

definition spec_mixins :: mixins where
  "spec_mixins =
     \<lparr>List_get_default_method = default_method ''List'' True,
      Create_get_default_method = default_method ''Create'' False,
      Retrieve_get_default_method = default_method ''Retrieve'' False,
      Update_get_default_method = default_method ''Update'' False,
      Destroy_get_default_method = default_method ''Destroy'' False,
      Create_get_default_message = default_message ''Create'',
      List_get_default_message = (\<lambda>model_name. default_message ''List'' model_name Star),
      Retrieve_get_default_message = default_message ''Retrieve'',
      Destroy_get_default_message = default_message ''Destroy''\<rparr>"

section \<open>The code writer\<close>

record CodeWriter =
  buffer :: string
  indent :: int

definition CodeWriter_init :: CodeWriter where
  "CodeWriter_init = \<lparr>buffer = [], indent = 0\<rparr>"

definition enter :: "CodeWriter \<Rightarrow> CodeWriter" where
  "enter w = w\<lparr>indent := indent w + 1\<rparr>"

definition exit :: "CodeWriter \<Rightarrow> CodeWriter" where
  "exit w = w\<lparr>indent := indent w - 1\<rparr>"

text \<open>
  \<^verbatim>\<open>range(self._indent)\<close> is empty for a negative count; \<^verbatim>\<open>print\<close> ends the line
  with a line feed.
\<close>

definition write_line :: "CodeWriter \<Rightarrow> string \<Rightarrow> CodeWriter" where
  "write_line w line =
     w\<lparr>buffer := buffer w @ concat (replicate (nat (indent w)) ''    '') @ line @ [CHR 0x0A]\<rparr>"

definition get_code :: "CodeWriter \<Rightarrow> string" where
  "get_code w = buffer w"

section \<open>The generator\<close>

definition type_mapping :: "(string, string) dict" where
  "type_mapping =
     [(''AutoField'', ''int32''),
      (''SmallIntegerField'', ''int32''),
      (''IntegerField'', ''int32''),
      (''BigIntegerField'', ''int64''),
      (''PositiveSmallIntegerField'', ''int32''),
      (''PositiveIntegerField'', ''int32''),
      (''FloatField'', ''float''),
      (''DecimalField'', ''string''),
      (''BooleanField'', ''bool''),
      (''NullBooleanField'', ''bool''),
      (''DateField'', ''string''),
      (''TimeField'', ''string''),
      (''DateTimeField'', ''string''),
      (''DurationField'', ''string''),
      (''CharField'', ''string''),
      (''TextField'', ''string''),
      (''EmailField'', ''string''),
      (''SlugField'', ''string''),
      (''URLField'', ''string''),
      (''UUIDField'', ''string''),
      (''GenericIPAddressField'', ''string''),
      (''FilePathField'', ''string''),
      (''Field'', ''string'')]"

text \<open>\<^verbatim>\<open>self.type_mapping.get(tag, 'string')\<close>\<close>

definition map_type :: "string \<Rightarrow> string" where
  "map_type tag = (case dict_get type_mapping tag of None \<Rightarrow> ''string'' | Some t \<Rightarrow> t)"

record generator =
  app_name :: string
  model_name :: "string option"
  models :: "model list"
  writer :: CodeWriter

text \<open>
  \<^verbatim>\<open>__init__\<close>: the model list \<open>ms\<close> is what the registry answers
  (\<^verbatim>\<open>[get_model(app_name, model_name)]\<close> or \<^verbatim>\<open>list(app.get_models())\<close>); the writer is
  created here.
\<close>

definition init :: "string \<Rightarrow> string option \<Rightarrow> model list \<Rightarrow> generator" where
  "init an mn ms = \<lparr>app_name = an, model_name = mn, models = ms, writer = CodeWriter_init\<rparr>"

definition construct_method_message :: "message_info \<Rightarrow> model \<Rightarrow> string" where
  "construct_method_message info m =
     (if (case is_stream info of None \<Rightarrow> False | Some b \<Rightarrow> b) then ''stream '' else [])
     @ (case message info of None \<Rightarrow> m_name m | Some s \<Rightarrow> s)"

definition get_default_grpc_methods :: "mixins \<Rightarrow> model \<Rightarrow> (string, method_data) dict" where
  "get_default_grpc_methods mx m =
     dict_display
       [List_get_default_method mx (m_name m),
        Create_get_default_method mx (m_name m),
        Retrieve_get_default_method mx (m_name m),
        Update_get_default_method mx (m_name m),
        Destroy_get_default_method mx (m_name m)] []"

definition get_default_grpc_messages :: "mixins \<Rightarrow> model \<Rightarrow> (string, fields_name) dict" where
  "get_default_grpc_messages mx m =
     dict_display
       [Create_get_default_message mx (m_name m) Star,
        List_get_default_message mx (m_name m),
        Retrieve_get_default_message mx (m_name m) (Names [m_pk_name m]),
        Destroy_get_default_message mx (m_name m) (Names [m_pk_name m])] []"

text \<open>The method set of a model: the override when the attribute is there.\<close>

definition grpc_methods_of :: "mixins \<Rightarrow> model \<Rightarrow> (string, method_data) dict" where
  "grpc_methods_of mx m =
     (case m_grpc_methods m of Some d \<Rightarrow> d | None \<Rightarrow> get_default_grpc_methods mx m)"

definition grpc_messages_of :: "mixins \<Rightarrow> model \<Rightarrow> (string, fields_name) dict" where
  "grpc_messages_of mx m =
     (case m_grpc_messages m of Some d \<Rightarrow> d | None \<Rightarrow> get_default_grpc_messages mx m)"

text \<open>\<^verbatim>\<open>method_data.get("request", dict())\<close>\<close>

definition get_info :: "message_info option \<Rightarrow> message_info" where
  "get_info i = (case i of None \<Rightarrow> \<lparr>is_stream = None, message = None\<rparr> | Some x \<Rightarrow> x)"

text \<open>The loop over \<^verbatim>\<open>grpc_methods.items()\<close> in \<^verbatim>\<open>_generate_service\<close>.\<close>

fun write_rpcs :: "model \<Rightarrow> CodeWriter \<Rightarrow> (string, method_data) dict \<Rightarrow> CodeWriter" where
  "write_rpcs m w [] = w"
| "write_rpcs m w ((method_name, md) # rest) =
     (let request_message = construct_method_message (get_info (request md)) m;
          response_message = construct_method_message (get_info (response md)) m
      in write_rpcs m
           (write_line w (''rpc '' @ method_name @ ''('' @ request_message
                          @ '') returns ('' @ response_message @ '') {}''))
           rest)"

definition generate_service :: "mixins \<Rightarrow> model \<Rightarrow> CodeWriter \<Rightarrow> CodeWriter" where
  "generate_service mx m w =
     (let grpc_methods = grpc_methods_of mx m in
      if grpc_methods = [] then w
      else
        let w1 = write_line w (''service '' @ m_name m @ ''Controller {'');
            w2 = exit (write_rpcs m (enter w1) grpc_methods);
            w3 = write_line w2 ''}''
        in write_line w3 [])"

text \<open>
  The loop over the field names of one message in \<^verbatim>\<open>_generate_message\<close>; a field
  that \<^verbatim>\<open>get_field\<close> does not find raises.
\<close>

fun write_fields :: "model \<Rightarrow> CodeWriter \<Rightarrow> nat \<Rightarrow> string list \<Rightarrow> error + CodeWriter" where
  "write_fields m w number [] = Inr w"
| "write_fields m w number (field_name # rest) =
     (let number' = number + 1 in
      case get_field m field_name of
        Inl e \<Rightarrow> Inl e
      | Inr fi \<Rightarrow>
          write_fields m
            (write_line w (map_type (f_internal_type fi) @ '' '' @ f_name fi
                           @ '' = '' @ str_nat number' @ '';''))
            number' rest)"

text \<open>The loop over \<^verbatim>\<open>grpc_messages.items()\<close> in \<^verbatim>\<open>_generate_message\<close>.\<close>

fun write_messages ::
  "model \<Rightarrow> CodeWriter \<Rightarrow> (string, fields_name) dict \<Rightarrow> error + CodeWriter" where
  "write_messages m w [] = Inr w"
| "write_messages m w ((grpc_message_name, fs) # rest) =
     (let grpc_message_fields_name =
            (case fs of Star \<Rightarrow> map f_name (get_model_fields m) | Names ns \<Rightarrow> ns);
          w1 = write_line w (''message '' @ grpc_message_name @ '' {'')
      in case write_fields m (enter w1) 0 grpc_message_fields_name of
           Inl e \<Rightarrow> Inl e
         | Inr w2 \<Rightarrow> write_messages m (write_line (write_line (exit w2) ''}'') []) rest)"

definition generate_message :: "mixins \<Rightarrow> model \<Rightarrow> CodeWriter \<Rightarrow> error + CodeWriter" where
  "generate_message mx m w =
     (let grpc_messages = grpc_messages_of mx m in
      if grpc_messages = [] then Inr w else write_messages m w grpc_messages)"

text \<open>The two passes of \<^verbatim>\<open>get_proto\<close> over \<^verbatim>\<open>self.models\<close>.\<close>

fun services_pass :: "mixins \<Rightarrow> model list \<Rightarrow> CodeWriter \<Rightarrow> CodeWriter" where
  "services_pass mx [] w = w"
| "services_pass mx (m # ms) w =
     (if is_abstract_model m then services_pass mx ms w
      else services_pass mx ms (generate_service mx m w))"

fun messages_pass :: "mixins \<Rightarrow> model list \<Rightarrow> CodeWriter \<Rightarrow> error + CodeWriter" where
  "messages_pass mx [] w = Inr w"
| "messages_pass mx (m # ms) w =
     (if is_abstract_model m then messages_pass mx ms w
      else case generate_message mx m w of
             Inl e \<Rightarrow> Inl e
           | Inr w' \<Rightarrow> messages_pass mx ms w')"

text \<open>The package name: \<^verbatim>\<open>self.app_name if self.app_name else self.model_name\<close>.\<close>

definition package_name :: "generator \<Rightarrow> string" where
  "package_name g =
     (if app_name g \<noteq> [] then app_name g
      else case model_name g of None \<Rightarrow> ''None'' | Some s \<Rightarrow> s)"

definition write_header :: "generator \<Rightarrow> CodeWriter \<Rightarrow> CodeWriter" where
  "write_header g w =
     (let w1 = write_line w ''syntax = \"proto3\";'';
          w2 = write_line w1 [];
          w3 = write_line w2 (''package '' @ package_name g @ '';'');
          w4 = write_line w3 [];
          w5 = write_line w4 ''import \"google/protobuf/empty.proto\";''
      in write_line w5 [])"

text \<open>
  \<^verbatim>\<open>get_proto\<close> writes into the generator's writer and returns the whole buffer; the
  generator comes back with the writer as the call left it. An exception returns the
  error alone.
\<close>

definition get_proto :: "mixins \<Rightarrow> generator \<Rightarrow> error + (string \<times> generator)" where
  "get_proto mx g =
     (let w1 = services_pass mx (models g) (write_header g (writer g)) in
      case messages_pass mx (models g) w1 of
        Inl e \<Rightarrow> Inl e
      | Inr w2 \<Rightarrow> Inr (get_code w2, g\<lparr>writer := w2\<rparr>))"

section \<open>The output format, for stating the properties\<close>

text \<open>The same writer with \<open>b\<close> put in front of what it holds.\<close>

definition prepend :: "string \<Rightarrow> CodeWriter \<Rightarrow> CodeWriter" where
  "prepend b w = w\<lparr>buffer := b @ buffer w\<rparr>"

text \<open>What a writer holding \<open>t\<close> more than \<open>w\<close> looks like.\<close>

definition emit :: "CodeWriter \<Rightarrow> string \<Rightarrow> CodeWriter" where
  "emit w t = w\<lparr>buffer := buffer w @ t\<rparr>"

definition indentation :: "int \<Rightarrow> string" where
  "indentation i = concat (replicate (nat i) ''    '')"

text \<open>
  The spec's line \<^verbatim>\<open><protoType> <fieldName> = <N>;\<close> at indent depth \<open>i\<close>, and its
  message block: the fields numbered from 1 in the order of the list.
\<close>

definition spec_field_line :: "int \<Rightarrow> nat \<Rightarrow> string \<times> string \<Rightarrow> string" where
  "spec_field_line i number tf =
     indentation i @ fst tf @ '' '' @ snd tf @ '' = '' @ str_nat number @ '';'' @ [CHR 0x0A]"

definition spec_message_block :: "int \<Rightarrow> string \<Rightarrow> (string \<times> string) list \<Rightarrow> string" where
  "spec_message_block i msg tfs =
     indentation i @ ''message '' @ msg @ '' {'' @ [CHR 0x0A]
     @ concat (map2 (spec_field_line (i + 1)) [1..<length tfs + 1] tfs)
     @ indentation i @ ''}'' @ [CHR 0x0A]
     @ indentation i @ [CHR 0x0A]"

text \<open>
  The proto type and the name the generator prints for a listed name that
  \<^verbatim>\<open>get_field\<close> resolves: those of the field found, \<^verbatim>\<open>field_info.name\<close>.
\<close>

definition typed_field :: "model \<Rightarrow> string \<Rightarrow> string \<times> string" where
  "typed_field m field_name =
     (case get_field m field_name of
        Inl e \<Rightarrow> ([], [])
      | Inr fi \<Rightarrow> (map_type (f_internal_type fi), f_name fi))"

text \<open>The model has the field name: \<^verbatim>\<open>get_field\<close> resolves it.\<close>

definition has_field :: "model \<Rightarrow> string \<Rightarrow> bool" where
  "has_field m field_name = (field_name \<in> fst ` set (m_fields_map m))"

text \<open>The listed name is the name of the field it resolves to, not an alias of it.\<close>

definition own_name :: "model \<Rightarrow> string \<Rightarrow> bool" where
  "own_name m field_name =
     (case get_field m field_name of Inl e \<Rightarrow> False | Inr fi \<Rightarrow> f_name fi = field_name)"

text \<open>The lookup gives every declared field back under its name.\<close>

definition fields_resolve :: "model \<Rightarrow> bool" where
  "fields_resolve m = list_all (\<lambda>f. get_field m (f_name f) = Inr f) (m_fields m)"

text \<open>
  The keys of a dict after the items of another were stored into it: the old keys stay
  where they are, the new ones follow in their order.
\<close>

definition keys_after :: "'k list \<Rightarrow> 'k list \<Rightarrow> 'k list" where
  "keys_after seen ks = seen @ filter (\<lambda>k. k \<notin> set seen) ks"

section \<open>Example inputs\<close>

text \<open>The spec's \<^verbatim>\<open>Book\<close> model, with no override.\<close>

definition book :: model where
  "book =
     \<lparr>m_name = ''Book'', m_abstract = False,
      m_fields = [\<lparr>f_name = ''id'', f_internal_type = ''AutoField''\<rparr>,
                  \<lparr>f_name = ''title'', f_internal_type = ''CharField''\<rparr>,
                  \<lparr>f_name = ''price'', f_internal_type = ''DecimalField''\<rparr>],
      m_fields_map =
        [(''id'', \<lparr>f_name = ''id'', f_internal_type = ''AutoField''\<rparr>),
         (''title'', \<lparr>f_name = ''title'', f_internal_type = ''CharField''\<rparr>),
         (''price'', \<lparr>f_name = ''price'', f_internal_type = ''DecimalField''\<rparr>)],
      m_pk_name = ''id'', m_grpc_methods = None, m_grpc_messages = None\<rparr>"

text \<open>
  A model with the foreign key \<^verbatim>\<open>author\<close>, which the lookup also has under its
  attname \<^verbatim>\<open>author_id\<close>, and a message override that lists the attname.
\<close>

definition novel :: model where
  "novel =
     \<lparr>m_name = ''Novel'', m_abstract = False,
      m_fields = [\<lparr>f_name = ''id'', f_internal_type = ''AutoField''\<rparr>,
                  \<lparr>f_name = ''author'', f_internal_type = ''ForeignKey''\<rparr>],
      m_fields_map =
        [(''id'', \<lparr>f_name = ''id'', f_internal_type = ''AutoField''\<rparr>),
         (''author'', \<lparr>f_name = ''author'', f_internal_type = ''ForeignKey''\<rparr>),
         (''author_id'', \<lparr>f_name = ''author'', f_internal_type = ''ForeignKey''\<rparr>)],
      m_pk_name = ''id'', m_grpc_methods = None,
      m_grpc_messages = Some [(''NovelRequest'', Names [''author_id''])]\<rparr>"

text \<open>The header of the package \<^verbatim>\<open>app\<close>.\<close>

definition app_header :: string where
  "app_header =
     ''syntax = \"proto3\";'' @ [CHR 0x0A] @ [CHR 0x0A]
     @ ''package app;'' @ [CHR 0x0A] @ [CHR 0x0A]
     @ ''import \"google/protobuf/empty.proto\";'' @ [CHR 0x0A] @ [CHR 0x0A]"

text \<open>Mixins whose five default methods all have the name \<^verbatim>\<open>Op\<close>.\<close>

definition op_method :: "string \<Rightarrow> string \<Rightarrow> (string, method_data) dict" where
  "op_method verb mn =
     [(''Op'', \<lparr>request = None, response = Some \<lparr>is_stream = None, message = Some verb\<rparr>\<rparr>)]"

definition op_mixins :: mixins where
  "op_mixins =
     spec_mixins
       \<lparr>List_get_default_method := op_method ''List'',
        Create_get_default_method := op_method ''Create'',
        Retrieve_get_default_method := op_method ''Retrieve'',
        Update_get_default_method := op_method ''Update'',
        Destroy_get_default_method := op_method ''Destroy''\<rparr>"


text \<open>\<^verbatim>\<open>Book\<close> with an empty method override.\<close>

definition silent_book :: model where
  "silent_book = book\<lparr>m_grpc_methods := Some []\<rparr>"

text \<open>The document of the application \<^verbatim>\<open>app\<close> whose one model is \<^verbatim>\<open>Book\<close>.\<close>

definition lines_text :: "string list \<Rightarrow> string" where
  "lines_text ls = concat (map (\<lambda>l. l @ [CHR 0x0A]) ls)"

definition book_proto :: string where
  "book_proto = lines_text
     [''syntax = \"proto3\";'',
      '''',
      ''package app;'',
      '''',
      ''import \"google/protobuf/empty.proto\";'',
      '''',
      ''service BookController {'',
      ''    rpc ListBook(BookListRequest) returns (stream BookListResponse) {}'',
      ''    rpc CreateBook(BookCreateRequest) returns (BookCreateResponse) {}'',
      ''    rpc RetrieveBook(BookRetrieveRequest) returns (BookRetrieveResponse) {}'',
      ''    rpc UpdateBook(BookUpdateRequest) returns (BookUpdateResponse) {}'',
      ''    rpc DestroyBook(BookDestroyRequest) returns (BookDestroyResponse) {}'',
      ''}'',
      '''',
      ''message BookCreateRequest {'',
      ''    int32 id = 1;'',
      ''    string title = 2;'',
      ''    string price = 3;'',
      ''}'',
      '''',
      ''message BookListRequest {'',
      ''    int32 id = 1;'',
      ''    string title = 2;'',
      ''    string price = 3;'',
      ''}'',
      '''',
      ''message BookRetrieveRequest {'',
      ''    int32 id = 1;'',
      ''}'',
      '''',
      ''message BookDestroyRequest {'',
      ''    int32 id = 1;'',
      ''}'',
      '''']"

section \<open>Dicts\<close>

lemma dict_get_Nil: "dict_get [] k = None"
  by (simp add: dict_get_def)

lemma dict_get_Cons:
  "dict_get ((k', v') # d) k = (if k = k' then Some v' else dict_get d k)"
  by (simp add: dict_get_def)

lemma dict_get_set:
  "dict_get (dict_set d k v) k' = (if k' = k then Some v else dict_get d k')"
  by (induction d) (auto simp: dict_get_Nil dict_get_Cons)

lemma dict_get_unpack:
  "dict_ok e \<Longrightarrow>
   dict_get (dict_unpack d e) k =
     (case dict_get e k of Some v \<Rightarrow> Some v | None \<Rightarrow> dict_get d k)"
proof (induction e arbitrary: d)
  case Nil
  then show ?case by (simp add: dict_get_Nil)
next
  case (Cons p e)
  obtain k' v' where p: "p = (k', v')" by (cases p)
  from Cons.prems p have notin: "dict_get e k' = None" and ok: "dict_ok e"
    by (auto simp: dict_ok_def dict_get_def map_of_eq_None_iff)
  show ?case
    using Cons.IH [OF ok, of "dict_set d k' v'"] p notin
    by (auto simp: dict_get_set dict_get_Cons split: option.splits)
qed

lemma keys_dict_set:
  "map fst (dict_set d k v) = (if k \<in> set (map fst d) then map fst d else map fst d @ [k])"
proof (induction d)
  case Nil
  then show ?case by simp
next
  case (Cons p d)
  obtain k' v' where p: "p = (k', v')" by (cases p)
  show ?case
    using Cons.IH by (cases "k' = k") (simp_all add: p)
qed

lemma keys_dict_unpack:
  "dict_ok e \<Longrightarrow> map fst (dict_unpack d e) = keys_after (map fst d) (map fst e)"
proof (induction e arbitrary: d)
  case Nil
  then show ?case by (simp add: keys_after_def)
next
  case (Cons p e)
  obtain k v where p: "p = (k, v)" by (cases p)
  from Cons.prems p have notin: "k \<notin> set (map fst e)" and ok: "dict_ok e"
    by (auto simp: dict_ok_def)
  have step: "map fst (dict_unpack d (p # e)) =
              keys_after (map fst (dict_set d k v)) (map fst e)"
    using Cons.IH [OF ok, of "dict_set d k v"] by (simp add: p)
  show ?case
  proof (cases "k \<in> set (map fst d)")
    case True
    then have "keys_after (map fst (dict_set d k v)) (map fst e) =
               keys_after (map fst d) (map fst (p # e))"
      by (simp add: keys_dict_set keys_after_def p)
    with step show ?thesis by simp
  next
    case False
    have same: "filter (\<lambda>x. x \<notin> set (map fst d @ [k])) (map fst e) =
                filter (\<lambda>x. x \<notin> set (map fst d)) (map fst e)"
      using notin by (intro filter_cong) auto
    have "keys_after (map fst d @ [k]) (map fst e) =
          keys_after (map fst d) (map fst (p # e))"
      unfolding keys_after_def same using False by (simp add: p)
    with step False show ?thesis by (simp add: keys_dict_set)
  qed
qed

lemma dict_ok_unpack: "dict_ok d \<Longrightarrow> dict_ok e \<Longrightarrow> dict_ok (dict_unpack d e)"
  unfolding dict_ok_def [of "dict_unpack d e"]
  by (auto simp: keys_dict_unpack keys_after_def dict_ok_def distinct_map_filter)

lemma dict_ok_Nil: "dict_ok []"
  by (simp add: dict_ok_def)

section \<open>The writer: indent depth and what is already in the buffer\<close>

lemma indent_write_line: "indent (write_line w l) = indent w"
  by (simp add: write_line_def)

lemma indent_write_rpcs: "indent (write_rpcs m w d) = indent w"
  by (induction d arbitrary: w) (auto simp: indent_write_line Let_def)

lemma indent_generate_service: "indent (generate_service mx m w) = indent w"
  by (simp add: generate_service_def Let_def indent_write_line indent_write_rpcs
      enter_def exit_def)

lemma indent_services_pass: "indent (services_pass mx ms w) = indent w"
  by (induction ms arbitrary: w) (auto simp: indent_generate_service)

lemma indent_write_fields: "write_fields m w n ns = Inr w' \<Longrightarrow> indent w' = indent w"
proof (induction ns arbitrary: w n)
  case Nil
  then show ?case by simp
next
  case (Cons a ns)
  then show ?case
    by (auto simp: Let_def indent_write_line split: sum.splits)
qed

lemma indent_write_messages: "write_messages m w d = Inr w' \<Longrightarrow> indent w' = indent w"
proof (induction d arbitrary: w)
  case Nil
  then show ?case by simp
next
  case (Cons p d)
  obtain nm fs where p: "p = (nm, fs)" by (cases p)
  from Cons.prems p obtain w2 where
    w2: "write_fields m (enter (write_line w (''message '' @ nm @ '' {''))) 0
           (case fs of Star \<Rightarrow> map f_name (get_model_fields m) | Names ns \<Rightarrow> ns) = Inr w2"
    and rest: "write_messages m (write_line (write_line (exit w2) ''}'') []) d = Inr w'"
    by (auto simp: Let_def split: sum.splits)
  have "indent w2 = indent w + 1"
    using indent_write_fields [OF w2] by (simp add: enter_def indent_write_line)
  with Cons.IH [OF rest] show ?case
    by (simp add: indent_write_line exit_def)
qed

lemma indent_generate_message: "generate_message mx m w = Inr w' \<Longrightarrow> indent w' = indent w"
  by (auto simp: generate_message_def Let_def split: if_splits dest: indent_write_messages)

lemma indent_messages_pass: "messages_pass mx ms w = Inr w' \<Longrightarrow> indent w' = indent w"
proof (induction ms arbitrary: w)
  case Nil
  then show ?case by simp
next
  case (Cons m ms)
  then show ?case
    by (auto split: if_splits sum.splits dest: indent_generate_message)
qed

lemma write_line_prepend: "write_line (prepend b w) l = prepend b (write_line w l)"
  by (simp add: write_line_def prepend_def)

lemma enter_prepend: "enter (prepend b w) = prepend b (enter w)"
  by (simp add: enter_def prepend_def)

lemma exit_prepend: "exit (prepend b w) = prepend b (exit w)"
  by (simp add: exit_def prepend_def)

lemma write_rpcs_prepend: "write_rpcs m (prepend b w) d = prepend b (write_rpcs m w d)"
  by (induction d arbitrary: w) (auto simp: write_line_prepend Let_def)

lemma generate_service_prepend:
  "generate_service mx m (prepend b w) = prepend b (generate_service mx m w)"
  by (simp add: generate_service_def Let_def write_line_prepend write_rpcs_prepend
      enter_prepend exit_prepend)

lemma services_pass_prepend:
  "services_pass mx ms (prepend b w) = prepend b (services_pass mx ms w)"
  by (induction ms arbitrary: w) (auto simp: generate_service_prepend)

lemma write_fields_prepend:
  "write_fields m (prepend b w) n ns = map_sum id (prepend b) (write_fields m w n ns)"
  by (induction ns arbitrary: w n) (auto simp: write_line_prepend Let_def split: sum.splits)

lemma write_messages_prepend:
  "write_messages m (prepend b w) d = map_sum id (prepend b) (write_messages m w d)"
proof (induction d arbitrary: w)
  case Nil
  then show ?case by simp
next
  case (Cons p d)
  obtain nm fs where p: "p = (nm, fs)" by (cases p)
  show ?case
    unfolding p
    by (simp add: Let_def write_line_prepend enter_prepend exit_prepend write_fields_prepend
        Cons.IH split: sum.splits)
qed

lemma generate_message_prepend:
  "generate_message mx m (prepend b w) = map_sum id (prepend b) (generate_message mx m w)"
  by (simp add: generate_message_def Let_def write_messages_prepend)

lemma messages_pass_prepend:
  "messages_pass mx ms (prepend b w) = map_sum id (prepend b) (messages_pass mx ms w)"
  by (induction ms arbitrary: w) (auto simp: generate_message_prepend split: sum.splits)

lemma write_header_prepend: "write_header g (prepend b w) = prepend b (write_header g w)"
  by (simp add: write_header_def Let_def write_line_prepend)

lemma indent_write_header: "indent (write_header g w) = indent w"
  by (simp add: write_header_def Let_def indent_write_line)

section \<open>What the loops write\<close>

lemma str_nat_digit: "n < 10 \<Longrightarrow> str_nat n = [digit n]"
  by (simp add: str_nat.simps)

lemma write_line_emit:
  "write_line w l = emit w (indentation (indent w) @ l @ [CHR 0x0A])"
  by (simp add: write_line_def emit_def indentation_def)

lemma emit_emit: "emit (emit w s) t = emit w (s @ t)"
  by (simp add: emit_def)

lemma indent_emit: "indent (emit w t) = indent w"
  by (simp add: emit_def)

lemma get_field_has: "has_field m x \<Longrightarrow> \<exists>fi. get_field m x = Inr fi"
proof -
  assume "has_field m x"
  then have "dict_get (m_fields_map m) x \<noteq> None"
    by (simp add: has_field_def dict_get_def map_of_eq_None_iff)
  then show ?thesis
    by (auto simp: get_field_def)
qed

lemma get_field_missing:
  "\<not> has_field m x \<Longrightarrow> get_field m x = Inl (FieldDoesNotExist (m_name m) x)"
  by (simp add: has_field_def get_field_def dict_get_def map_of_eq_None_iff [THEN iffD2])

lemma write_fields_emit:
  "list_all (has_field m) ns \<Longrightarrow>
   write_fields m w n ns =
     Inr (emit w (concat (map2 (spec_field_line (indent w))
                            [Suc n..<Suc (n + length ns)] (map (typed_field m) ns))))"
proof (induction ns arbitrary: w n)
  case Nil
  then show ?case by (simp add: emit_def)
next
  case (Cons x ns)
  from Cons.prems have hx: "has_field m x" and rest: "list_all (has_field m) ns"
    by simp_all
  from get_field_has [OF hx] obtain fi where fi: "get_field m x = Inr fi"
    by blast
  have tf: "typed_field m x = (map_type (f_internal_type fi), f_name fi)"
    by (simp add: typed_field_def fi)
  have up: "[Suc n..<Suc (n + length (x # ns))] = Suc n # [Suc (Suc n)..<Suc (Suc n + length ns)]"
    by (subst upt_conv_Cons) simp_all
  show ?case
    unfolding up
    using Cons.IH [OF rest, of _ "Suc n"] fi tf
    by (simp add: Let_def write_line_emit emit_emit indent_emit spec_field_line_def)
qed

lemma exit_enter_emit: "exit (emit (enter w) t) = emit w t"
  by (simp add: exit_def enter_def emit_def)

lemma write_messages_head:
  assumes "list_all (has_field m) ns"
    and "ns = (case fs of Star \<Rightarrow> map f_name (get_model_fields m) | Names xs \<Rightarrow> xs)"
  shows "write_messages m w ((msg, fs) # rest) =
         write_messages m (emit w (spec_message_block (indent w) msg (map (typed_field m) ns))) rest"
proof -
  let ?w1 = "enter (write_line w (''message '' @ msg @ '' {''))"
  let ?T = "concat (map2 (spec_field_line (indent w + 1))
                      [1..<length ns + 1] (map (typed_field m) ns))"
  have i1: "indent ?w1 = indent w + 1"
    by (simp add: enter_def indent_write_line)
  have wf: "write_fields m ?w1 0 ns = Inr (emit ?w1 ?T)"
    using write_fields_emit [OF assms(1), of ?w1 0] i1 by (simp del: upt_Suc)
  have fin: "write_line (write_line (exit (emit ?w1 ?T)) ''}'') [] =
             emit w (spec_message_block (indent w) msg (map (typed_field m) ns))"
    unfolding exit_enter_emit
    by (simp add: write_line_emit emit_emit indent_emit spec_message_block_def del: upt_Suc)
  have "write_messages m w ((msg, fs) # rest) =
        (case write_fields m ?w1 0 ns of
           Inl e \<Rightarrow> Inl e
         | Inr w2 \<Rightarrow> write_messages m (write_line (write_line (exit w2) ''}'') []) rest)"
    unfolding assms(2) by (simp add: Let_def)
  also have "\<dots> = write_messages m (write_line (write_line (exit (emit ?w1 ?T)) ''}'') []) rest"
    unfolding wf by simp
  finally show ?thesis unfolding fin .
qed

lemma typed_field_own:
  "get_field m (f_name f) = Inr f \<Longrightarrow>
   typed_field m (f_name f) = (map_type (f_internal_type f), f_name f)"
  by (simp add: typed_field_def)

lemma typed_fields_resolve:
  "fields_resolve m \<Longrightarrow>
   map (typed_field m) (map f_name (m_fields m)) =
   map (\<lambda>f. (map_type (f_internal_type f), f_name f)) (m_fields m)"
  by (simp add: fields_resolve_def list_all_iff typed_field_own)

lemma has_field_resolve: "get_field m x = Inr fi \<Longrightarrow> has_field m x"
  by (rule ccontr) (simp add: get_field_missing)

lemma all_own_fields: "fields_resolve m \<Longrightarrow> list_all (has_field m) (map f_name (m_fields m))"
  by (auto simp: fields_resolve_def list_all_iff intro: has_field_resolve)

lemma own_name_has_field: "own_name m x \<Longrightarrow> has_field m x"
  by (cases "get_field m x") (auto simp: own_name_def intro: has_field_resolve)

lemma snd_typed_field: "own_name m x \<Longrightarrow> snd (typed_field m x) = x"
  by (cases "get_field m x") (auto simp: own_name_def typed_field_def)

lemma map_snd_typed_field: "list_all (own_name m) ns \<Longrightarrow> map snd (map (typed_field m) ns) = ns"
  by (induction ns) (auto simp: snd_typed_field)

section \<open>Failure and skipping\<close>





lemma services_pass_filter:
  "services_pass mx (filter (\<lambda>m. \<not> is_abstract_model m) ms) w = services_pass mx ms w"
  by (induction ms arbitrary: w) auto

lemma messages_pass_filter:
  "messages_pass mx (filter (\<lambda>m. \<not> is_abstract_model m) ms) w = messages_pass mx ms w"
  by (induction ms arbitrary: w) (auto split: sum.splits)

section \<open>The example document\<close>

lemma book_eval:
  "get_proto spec_mixins (init ''app'' None [book]) =
   Inr (book_proto, (init ''app'' None [book])\<lparr>writer := \<lparr>buffer = book_proto, indent = 0\<rparr>\<rparr>)"
  by code_simp

lemmas eval_defs =
  get_proto_def init_def book_def spec_mixins_def default_method_def
  default_message_def CodeWriter_init_def write_header_def package_name_def
  write_line_def get_code_def is_abstract_model_def generate_service_def
  grpc_methods_of_def get_default_grpc_methods_def generate_message_def
  grpc_messages_of_def get_default_grpc_messages_def get_model_fields_def
  get_field_def map_type_def dict_get_def type_mapping_def enter_def exit_def
  construct_method_message_def get_info_def str_nat_digit digit_def
  lines_text_def Let_def

section \<open>The claims\<close>

text \<open>
  C1. As stated, the claim fails: the writer is created by \<^verbatim>\<open>__init__\<close>, not by
  \<^verbatim>\<open>get_proto\<close>, so it lives as long as the generator. What holds: a generator that
  \<^verbatim>\<open>__init__\<close> has just built has an empty writer of its own, \<^verbatim>\<open>get_proto\<close> on it
  returns a text \<open>out\<close> and leaves the writer holding \<open>out\<close> at depth 0, and a second
  \<^verbatim>\<open>get_proto\<close> on that same generator returns \<open>out\<close> twice over.
\<close>

theorem get_proto_twice:
  assumes "get_proto mx (init an mn ms) = Inr (out, g')"
  shows "writer (init an mn ms) = \<lparr>buffer = [], indent = 0\<rparr> \<and>
         g' = (init an mn ms)\<lparr>writer := \<lparr>buffer = out, indent = 0\<rparr>\<rparr> \<and>
         get_proto mx g' = Inr (out @ out, g'\<lparr>writer := \<lparr>buffer = out @ out, indent = 0\<rparr>\<rparr>)"
proof -
  let ?g = "init an mn ms"
  let ?w0 = "CodeWriter_init"
  from assms obtain w2 where
    w2: "messages_pass mx ms (services_pass mx ms (write_header ?g ?w0)) = Inr w2"
    and out: "out = buffer w2" and g': "g' = ?g\<lparr>writer := w2\<rparr>"
    by (auto simp: get_proto_def init_def get_code_def Let_def split: sum.splits)
  have "indent w2 = 0"
    using indent_messages_pass [OF w2]
    by (simp add: indent_services_pass indent_write_header CodeWriter_init_def)
  with out have w2_eq: "w2 = \<lparr>buffer = out, indent = 0\<rparr>" by simp
  have pre: "w2 = prepend out ?w0"
    by (simp add: w2_eq prepend_def CodeWriter_init_def)
  have hdr: "write_header g' w2 = prepend out (write_header ?g ?w0)"
    unfolding pre write_header_prepend
    by (simp add: write_header_def package_name_def g' init_def)
  have "messages_pass mx ms (services_pass mx ms (write_header g' w2)) = Inr (prepend out w2)"
    unfolding hdr services_pass_prepend messages_pass_prepend w2 by simp
  moreover have "prepend out w2 = \<lparr>buffer = out @ out, indent = 0\<rparr>"
    by (simp add: w2_eq prepend_def)
  moreover have "models g' = ms" and "writer g' = w2" by (simp_all add: g' init_def)
  ultimately have "get_proto mx g' = Inr (out @ out, g'\<lparr>writer := \<lparr>buffer = out @ out, indent = 0\<rparr>\<rparr>)"
    by (simp add: get_proto_def get_code_def Let_def)
  with g' w2_eq show ?thesis by (simp add: init_def CodeWriter_init_def)
qed

theorem get_proto_twice_witness:
  "get_proto spec_mixins (init ''app'' None [book]) =
     Inr (book_proto, (init ''app'' None [book])\<lparr>writer := \<lparr>buffer = book_proto, indent = 0\<rparr>\<rparr>)
   \<and> get_proto spec_mixins
         ((init ''app'' None [book])\<lparr>writer := \<lparr>buffer = book_proto, indent = 0\<rparr>\<rparr>) =
     Inr (book_proto @ book_proto,
          (init ''app'' None [book])\<lparr>writer := \<lparr>buffer = book_proto @ book_proto, indent = 0\<rparr>\<rparr>)"
  using get_proto_twice [OF book_eval] book_eval by simp

text \<open>
  Two calls on one generator of an application with no model: the first returns the
  header, the second the header twice.
\<close>

theorem get_proto_twice_counterexample:
  "get_proto spec_mixins (init ''app'' None []) =
     Inr (app_header, (init ''app'' None [])\<lparr>writer := \<lparr>buffer = app_header, indent = 0\<rparr>\<rparr>)
   \<and> get_proto spec_mixins
         ((init ''app'' None [])\<lparr>writer := \<lparr>buffer = app_header, indent = 0\<rparr>\<rparr>) =
     Inr (app_header @ app_header,
          (init ''app'' None [])\<lparr>writer := \<lparr>buffer = app_header @ app_header, indent = 0\<rparr>\<rparr>)
   \<and> app_header @ app_header \<noteq> app_header"
  by (simp add: eval_defs app_header_def)



text \<open>
  C3. The type mapper is total: every tag gets one of the five scalar type names;
  the five 32-bit integer tags give \<^verbatim>\<open>int32\<close>, the big integer \<^verbatim>\<open>int64\<close>, the float
  \<^verbatim>\<open>float\<close>, the two booleans \<^verbatim>\<open>bool\<close>, and every other tag, in the table or not,
  \<^verbatim>\<open>string\<close>.
\<close>

theorem map_type_total:
  "map_type tag \<in> {''int32'', ''int64'', ''float'', ''bool'', ''string''} \<and>
   map_type tag =
     (if tag \<in> {''AutoField'', ''SmallIntegerField'', ''IntegerField'',
                 ''PositiveSmallIntegerField'', ''PositiveIntegerField''} then ''int32''
      else if tag = ''BigIntegerField'' then ''int64''
      else if tag = ''FloatField'' then ''float''
      else if tag \<in> {''BooleanField'', ''NullBooleanField''} then ''bool''
      else ''string'')"
  by (simp add: map_type_def dict_get_def type_mapping_def)

text \<open>
  C4. With the mixins as the spec describes them, a model with no message
  override has exactly four default messages, in this order: Create with all fields
  (\<^verbatim>\<open>"*"\<close>), List with all fields, Retrieve and Destroy with the primary-key name
  alone; there is no Update message.
\<close>

theorem default_messages:
  assumes "m_grpc_messages m = None"
  shows "grpc_messages_of spec_mixins m =
           [(m_name m @ ''CreateRequest'', Star),
            (m_name m @ ''ListRequest'', Star),
            (m_name m @ ''RetrieveRequest'', Names [m_pk_name m]),
            (m_name m @ ''DestroyRequest'', Names [m_pk_name m])]
         \<and> dict_get (grpc_messages_of spec_mixins m) (m_name m @ ''UpdateRequest'') = None"
  using assms
  by (simp add: grpc_messages_of_def get_default_grpc_messages_def spec_mixins_def
      default_message_def dict_get_def)

theorem default_messages_witness:
  "m_grpc_messages book = None
   \<and> grpc_messages_of spec_mixins book =
       [(''BookCreateRequest'', Star), (''BookListRequest'', Star),
        (''BookRetrieveRequest'', Names [''id'']), (''BookDestroyRequest'', Names [''id''])]
   \<and> dict_get (grpc_messages_of spec_mixins book) ''BookUpdateRequest'' = None"
  using default_messages [of book] by (simp add: book_def dict_get_def)

text \<open>
  C5. For a model with no method override, whatever the five mixins return, the
  method set is their merge in the order List, Create, Retrieve, Update, Destroy. It
  has every method name once; a name stands where the first of the five that has it
  put it; and its entry is the one of the last of the five that has it, which has
  overwritten those before.
\<close>

theorem default_methods_merge:
  assumes "dict_ok (List_get_default_method mx (m_name m))"
    and "dict_ok (Create_get_default_method mx (m_name m))"
    and "dict_ok (Retrieve_get_default_method mx (m_name m))"
    and "dict_ok (Update_get_default_method mx (m_name m))"
    and "dict_ok (Destroy_get_default_method mx (m_name m))"
    and "m_grpc_methods m = None"
  shows "dict_ok (grpc_methods_of mx m)
   \<and> map fst (grpc_methods_of mx m) =
       keys_after (keys_after (keys_after (keys_after
         (map fst (List_get_default_method mx (m_name m)))
         (map fst (Create_get_default_method mx (m_name m))))
         (map fst (Retrieve_get_default_method mx (m_name m))))
         (map fst (Update_get_default_method mx (m_name m))))
         (map fst (Destroy_get_default_method mx (m_name m)))
   \<and> dict_get (grpc_methods_of mx m) k =
    (case dict_get (Destroy_get_default_method mx (m_name m)) k of Some v \<Rightarrow> Some v | None \<Rightarrow>
     (case dict_get (Update_get_default_method mx (m_name m)) k of Some v \<Rightarrow> Some v | None \<Rightarrow>
     (case dict_get (Retrieve_get_default_method mx (m_name m)) k of Some v \<Rightarrow> Some v | None \<Rightarrow>
     (case dict_get (Create_get_default_method mx (m_name m)) k of Some v \<Rightarrow> Some v | None \<Rightarrow>
     dict_get (List_get_default_method mx (m_name m)) k))))"
proof -
  let ?L = "List_get_default_method mx (m_name m)"
  let ?C = "Create_get_default_method mx (m_name m)"
  let ?R = "Retrieve_get_default_method mx (m_name m)"
  let ?U = "Update_get_default_method mx (m_name m)"
  let ?D = "Destroy_get_default_method mx (m_name m)"
  let ?d1 = "dict_unpack [] ?L"
  let ?d2 = "dict_unpack ?d1 ?C"
  let ?d3 = "dict_unpack ?d2 ?R"
  let ?d4 = "dict_unpack ?d3 ?U"
  let ?d5 = "dict_unpack ?d4 ?D"
  have res: "grpc_methods_of mx m = ?d5"
    using assms(6) by (simp add: grpc_methods_of_def get_default_grpc_methods_def)
  have ok1: "dict_ok ?d1" by (rule dict_ok_unpack [OF dict_ok_Nil assms(1)])
  have ok2: "dict_ok ?d2" by (rule dict_ok_unpack [OF ok1 assms(2)])
  have ok3: "dict_ok ?d3" by (rule dict_ok_unpack [OF ok2 assms(3)])
  have ok4: "dict_ok ?d4" by (rule dict_ok_unpack [OF ok3 assms(4)])
  have ok5: "dict_ok ?d5" by (rule dict_ok_unpack [OF ok4 assms(5)])
  have k1: "map fst ?d1 = map fst ?L"
    by (simp add: keys_dict_unpack [OF assms(1)] keys_after_def)
  have keys: "map fst ?d5 =
      keys_after (keys_after (keys_after (keys_after (map fst ?L) (map fst ?C)) (map fst ?R))
        (map fst ?U)) (map fst ?D)"
    by (simp only: keys_dict_unpack [OF assms(5)] keys_dict_unpack [OF assms(4)]
        keys_dict_unpack [OF assms(3)] keys_dict_unpack [OF assms(2)] k1)
  have look: "dict_get ?d5 k =
    (case dict_get ?D k of Some v \<Rightarrow> Some v | None \<Rightarrow>
     (case dict_get ?U k of Some v \<Rightarrow> Some v | None \<Rightarrow>
     (case dict_get ?R k of Some v \<Rightarrow> Some v | None \<Rightarrow>
     (case dict_get ?C k of Some v \<Rightarrow> Some v | None \<Rightarrow> dict_get ?L k))))"
    using assms(1-5)
    by (simp add: dict_get_unpack dict_get_Nil cong: option.case_cong)
      (simp split: option.splits)
  show ?thesis
    unfolding res using ok5 keys look by (intro conjI)
qed

theorem default_methods_merge_witness:
  "dict_ok (List_get_default_method op_mixins (m_name book))
   \<and> dict_ok (Create_get_default_method op_mixins (m_name book))
   \<and> dict_ok (Retrieve_get_default_method op_mixins (m_name book))
   \<and> dict_ok (Update_get_default_method op_mixins (m_name book))
   \<and> dict_ok (Destroy_get_default_method op_mixins (m_name book))
   \<and> m_grpc_methods book = None
   \<and> dict_ok (grpc_methods_of op_mixins book)
   \<and> map fst (grpc_methods_of op_mixins book) = [''Op'']
   \<and> dict_get (grpc_methods_of op_mixins book) ''Op'' =
       Some \<lparr>request = None, response = Some \<lparr>is_stream = None, message = Some ''Destroy''\<rparr>\<rparr>"
  using default_methods_merge [of op_mixins book "''Op''"]
  by (simp add: op_mixins_def op_method_def spec_mixins_def dict_ok_def dict_get_def book_def
      keys_after_def)

text \<open>
  C6. As stated, the second half fails: the generator prints \<^verbatim>\<open>field_info.name\<close>
  of the field that \<^verbatim>\<open>get_field\<close> finds, not the listed name, and the lookup also
  knows a field under its attname. What holds: a message whose fields are \<^verbatim>\<open>"*"\<close> is
  written as the block of all fields of the model in declared order (the lookup giving
  every declared field back under its name); a message with a list of names the lookup
  resolves is written as one field per listed name, in the order of the list, each with
  the type and the name of the field its name resolves to; and these names are exactly
  the list when no listed name is an alias.
\<close>

theorem message_fields_order:
  "(fields_resolve m \<longrightarrow>
      write_messages m w ((msg, Star) # rest) =
      write_messages m
        (emit w (spec_message_block (indent w) msg
                   (map (\<lambda>f. (map_type (f_internal_type f), f_name f)) (m_fields m)))) rest)
   \<and> (list_all (has_field m) ns \<longrightarrow>
      write_messages m w ((msg, Names ns) # rest) =
      write_messages m
        (emit w (spec_message_block (indent w) msg (map (typed_field m) ns))) rest)
   \<and> (list_all (own_name m) ns \<longrightarrow>
      list_all (has_field m) ns \<and> map snd (map (typed_field m) ns) = ns)"
proof (intro conjI impI)
  assume d: "fields_resolve m"
  have "write_messages m w ((msg, Star) # rest) =
      write_messages m
        (emit w (spec_message_block (indent w) msg
                   (map (typed_field m) (map f_name (m_fields m))))) rest"
    by (rule write_messages_head [OF all_own_fields [OF d]]) (simp add: get_model_fields_def)
  then show "write_messages m w ((msg, Star) # rest) =
      write_messages m
        (emit w (spec_message_block (indent w) msg
                   (map (\<lambda>f. (map_type (f_internal_type f), f_name f)) (m_fields m)))) rest"
    by (simp only: typed_fields_resolve [OF d])
next
  assume h: "list_all (has_field m) ns"
  show "write_messages m w ((msg, Names ns) # rest) =
      write_messages m
        (emit w (spec_message_block (indent w) msg (map (typed_field m) ns))) rest"
    using write_messages_head [OF h, of "Names ns" w msg rest] by simp
next
  assume o: "list_all (own_name m) ns"
  then show "list_all (has_field m) ns"
    by (auto simp: list_all_iff intro: own_name_has_field)
  show "map snd (map (typed_field m) ns) = ns"
    by (rule map_snd_typed_field [OF o])
qed

theorem message_fields_order_witness:
  "fields_resolve book
   \<and> write_messages book CodeWriter_init [(''BookCreateRequest'', Star)] =
       Inr \<lparr>buffer = lines_text [''message BookCreateRequest {'', ''    int32 id = 1;'',
                 ''    string title = 2;'', ''    string price = 3;'', ''}'', []],
            indent = 0\<rparr>
   \<and> list_all (has_field novel) [''id'', ''author_id'']
   \<and> write_messages novel CodeWriter_init [(''Pair'', Names [''id'', ''author_id''])] =
       Inr \<lparr>buffer = lines_text [''message Pair {'', ''    int32 id = 1;'',
                 ''    string author = 2;'', ''}'', []],
            indent = 0\<rparr>
   \<and> list_all (own_name book) [''price'', ''id'']
   \<and> list_all (has_field book) [''price'', ''id'']
   \<and> map snd (map (typed_field book) [''price'', ''id'']) = [''price'', ''id'']"
  using message_fields_order [where m = book and w = CodeWriter_init
      and msg = "''BookCreateRequest''" and rest = "[]" and ns = "[''price'', ''id'']"]
    message_fields_order [where m = novel and w = CodeWriter_init
      and msg = "''Pair''" and rest = "[]" and ns = "[''id'', ''author_id'']"]
  by (simp add: eval_defs novel_def has_field_def typed_field_def own_name_def
      fields_resolve_def)

text \<open>
  The override of \<^verbatim>\<open>Novel\<close> lists the one name \<^verbatim>\<open>author_id\<close>; the message written
  has the one field \<^verbatim>\<open>author\<close>.
\<close>

theorem message_fields_order_counterexample:
  "m_grpc_messages novel = Some [(''NovelRequest'', Names [''author_id''])]
   \<and> generate_message spec_mixins novel CodeWriter_init =
       Inr \<lparr>buffer = lines_text [''message NovelRequest {'', ''    string author = 1;'',
                 ''}'', []],
            indent = 0\<rparr>
   \<and> map snd (map (typed_field novel) [''author_id'']) = [''author'']
   \<and> [''author''] \<noteq> [''author_id'']"
  by (simp add: eval_defs novel_def typed_field_def)

text \<open>
  C7. For a list of N field names the model has, the loop writes one line per
  name, and the line of the name at position k (counted from 0) carries the number
  k + 1: the numbers are 1 to N in listed order.
\<close>

theorem field_numbers:
  assumes "list_all (has_field m) ns"
  shows "write_fields m w 0 ns =
         Inr (emit w (concat (map (\<lambda>k. spec_field_line (indent w) (k + 1) (typed_field m (ns ! k)))
                                [0..<length ns])))"
proof -
  have "map2 (spec_field_line (indent w)) [Suc 0..<Suc (0 + length ns)] (map (typed_field m) ns)
        = map (\<lambda>k. spec_field_line (indent w) (k + 1) (typed_field m (ns ! k))) [0..<length ns]"
    by (rule nth_equalityI) (simp_all del: upt_Suc)
  then show ?thesis
    using write_fields_emit [OF assms, of w 0] by (simp del: upt_Suc)
qed

theorem field_numbers_witness:
  "list_all (has_field book) [''price'', ''id'', ''title'']
   \<and> write_fields book (enter CodeWriter_init) 0 [''price'', ''id'', ''title''] =
       Inr \<lparr>buffer = lines_text [''    string price = 1;'', ''    int32 id = 2;'',
                 ''    string title = 3;''],
            indent = 1\<rparr>"
  using field_numbers [of book "[''price'', ''id'', ''title'']" "enter CodeWriter_init"]
  by (simp add: eval_defs has_field_def)

text \<open>
  C8. Abstract models are skipped in both passes: the result of \<^verbatim>\<open>get_proto\<close>
  (the text, or the error) is the one of the same generator without its abstract
  models.
\<close>

theorem abstract_models_skipped:
  "map_sum id fst (get_proto mx (g\<lparr>models := filter (\<lambda>m. \<not> m_abstract m) (models g)\<rparr>))
   = map_sum id fst (get_proto mx g)"
proof -
  have "write_header (g\<lparr>models := filter (\<lambda>m. \<not> m_abstract m) (models g)\<rparr>) = write_header g"
    by (simp add: fun_eq_iff write_header_def package_name_def)
  then show ?thesis
    using services_pass_filter [of mx "models g"] messages_pass_filter [of mx "models g"]
    by (simp add: get_proto_def Let_def is_abstract_model_def split: sum.splits)
qed

text \<open>
  C9. A model whose method set (the override, or the default set) is empty
  writes nothing in the service pass: the writer is as it was, and the pass over a list
  with the model is the pass over the list without it.
\<close>

theorem empty_methods_no_service:
  assumes "grpc_methods_of mx m = []"
  shows "generate_service mx m w = w \<and>
         services_pass mx (ms1 @ m # ms2) w = services_pass mx (ms1 @ ms2) w"
proof
  show g: "generate_service mx m w = w" for w
    using assms by (simp add: generate_service_def)
  show "services_pass mx (ms1 @ m # ms2) w = services_pass mx (ms1 @ ms2) w"
    by (induction ms1 arbitrary: w) (auto simp: g)
qed

theorem empty_methods_no_service_witness:
  "grpc_methods_of spec_mixins silent_book = []
   \<and> generate_service spec_mixins silent_book CodeWriter_init = CodeWriter_init
   \<and> services_pass spec_mixins ([book] @ silent_book # []) CodeWriter_init =
       services_pass spec_mixins ([book] @ []) CodeWriter_init"
  using empty_methods_no_service [of spec_mixins silent_book CodeWriter_init "[book]" "[]"]
  by (simp add: grpc_methods_of_def silent_book_def)

text \<open>
  C10. A request or response entry is rendered as \<^verbatim>\<open>stream\<close> and a space exactly
  when its \<^verbatim>\<open>is_stream\<close> is there and true, then its message name, or the model's name
  when it has none; a method line renders its request and its response by the same
  function, and an entry that is missing altogether as the model's name.
\<close>

theorem method_message_rendering:
  "construct_method_message \<lparr>is_stream = st, message = ms\<rparr> m =
     (if st = Some True then ''stream '' else [])
     @ (case ms of None \<Rightarrow> m_name m | Some s \<Rightarrow> s)
   \<and> write_rpcs m w [(method_name, \<lparr>request = rq, response = rs\<rparr>)] =
     write_line w
       (''rpc '' @ method_name
        @ ''('' @ construct_method_message (get_info rq) m
        @ '') returns ('' @ construct_method_message (get_info rs) m @ '') {}'')
   \<and> construct_method_message (get_info None) m = m_name m"
  by (auto simp: construct_method_message_def get_info_def Let_def split: option.splits)

end
